theory Spec2Isabelle
  imports Complex_Main
begin

section \<open>Document AI utilities: \<open>create_batches\<close> and \<open>document_type_to_processor_type\<close>\<close>

text \<open>
  A shallow embedding of \<^verbatim>\<open>google/cloud/documentai_toolbox/utilities/utilities.py\<close>.
  The module has two functions. \<^verbatim>\<open>create_batches\<close> lists the blobs under a Cloud
  Storage prefix, skips some of them and groups the others into batches;
  \<^verbatim>\<open>document_type_to_processor_type\<close> is a lookup in a dictionary literal.
\<close>

subsection \<open>Python strings\<close>

text \<open>\<^verbatim>\<open>s.endswith(suffix)\<close>.\<close>

definition endswith :: "string \<Rightarrow> string \<Rightarrow> bool" where
  "endswith s suffix =
     (length suffix \<le> length s \<and> drop (length s - length suffix) s = suffix)"

text \<open>
  \<^verbatim>\<open>str(n)\<close> for an integer, as the f-strings of the messages format it: decimal
  digits, most significant first, with a leading minus sign for a negative number.
\<close>

definition digit_char :: "nat \<Rightarrow> char" where
  "digit_char d = ''0123456789'' ! d"

fun str_nat :: "nat \<Rightarrow> string" where
  "str_nat n = (if n < 10 then [digit_char n] else str_nat (n div 10) @ [digit_char (n mod 10)])"

declare str_nat.simps [simp del]

definition str_int :: "int \<Rightarrow> string" where
  "str_int i = (if i < 0 then CHR ''-'' # str_nat (nat (- i)) else str_nat (nat i))"

subsection \<open>The data the function reads and builds\<close>

text \<open>
  A blob of the storage listing; the function reads \<^verbatim>\<open>blob.name\<close>,
  \<^verbatim>\<open>blob.content_type\<close> and \<^verbatim>\<open>blob.size\<close> (a byte count; the field is called
  \<open>size_bytes\<close> here, \<open>size\<close> being a constant of HOL).
\<close>

record blob =
  name :: string
  content_type :: string
  size_bytes :: int

text \<open>The request messages of the Document AI client that the function fills in.\<close>

record GcsDocument =
  gcs_uri :: string
  mime_type :: string

record GcsDocuments =
  documents :: "GcsDocument list"

record BatchDocumentsInputConfig =
  gcs_documents :: GcsDocuments

text \<open>
  The module \<^verbatim>\<open>constants\<close> is imported and not defined in this file, so its three
  values are parameters of the model.
\<close>

record constants =
  BATCH_MAX_FILES :: int
  BATCH_MAX_FILE_SIZE :: int
  VALID_MIME_TYPES :: "string set"

subsection \<open>Exceptions and the storage collaborator\<close>

text \<open>
  \<open>ValueError\<close> is the exception \<^verbatim>\<open>create_batches\<close> raises itself;
  \<open>CollaboratorError\<close> stands for whatever the storage client raises. The type of the
  collaborator's failures is \<open>exn\<close> as a whole: nothing stops it from raising a
  \<open>ValueError\<close> of its own.
\<close>

datatype exn = ValueError string | CollaboratorError string

text \<open>
  The iterator \<^verbatim>\<open>list_blobs\<close> returns. Each \<^verbatim>\<open>next\<close> either yields a blob, ends the
  iteration, or raises.
\<close>

datatype blob_iterator =
    StopIteration
  | Yield blob blob_iterator
  | Raises exn

record storage_client =
  list_blobs :: "string \<Rightarrow> string \<Rightarrow> exn + blob_iterator"

text \<open>
  What the function does to the outside world, in order: it asks for a storage client,
  calls \<^verbatim>\<open>list_blobs\<close> with a bucket and a prefix, and prints.
\<close>

datatype event = GetStorageClient | ListBlobs string string | Print string

subsection \<open>\<open>create_batches\<close>\<close>

text \<open>
  The \<^verbatim>\<open>for blob in blob_list\<close> loop (lines 59 to 87), with the local variables
  \<open>batches\<close> and \<open>batch\<close> and the log of events as explicit state. An exception of the
  iterator leaves the loop with that exception.
\<close>

fun for_blob_in ::
  "constants \<Rightarrow> string \<Rightarrow> int \<Rightarrow> blob_iterator \<Rightarrow>
   BatchDocumentsInputConfig list \<Rightarrow> GcsDocument list \<Rightarrow> event list \<Rightarrow>
   (exn + BatchDocumentsInputConfig list \<times> GcsDocument list) \<times> event list"
where
  "for_blob_in c gcs_bucket_name batch_size StopIteration batches batch out =
     (Inr (batches, batch), out)"
| "for_blob_in c gcs_bucket_name batch_size (Raises e) batches batch out =
     (Inl e, out)"
| "for_blob_in c gcs_bucket_name batch_size (Yield blob blob_list) batches batch out =
     (if endswith (name blob) ''/'' then
        for_blob_in c gcs_bucket_name batch_size blob_list batches batch out
      else if content_type blob \<notin> VALID_MIME_TYPES c then
        for_blob_in c gcs_bucket_name batch_size blob_list batches batch
          (out @ [Print (''Skipping file '' @ name blob @ ''. Invalid Mime Type ''
                         @ content_type blob @ ''.'')])
      else if size_bytes blob > BATCH_MAX_FILE_SIZE c then
        for_blob_in c gcs_bucket_name batch_size blob_list batches batch
          (out @ [Print (''Skipping file '' @ name blob @ ''. File size must be less than ''
                         @ str_int (BATCH_MAX_FILE_SIZE c) @ '' bytes. File size is ''
                         @ str_int (size_bytes blob) @ '' bytes.'')])
      else
        (let (batches', batch') =
               (if int (length batch) = batch_size
                then (batches @ [\<lparr>gcs_documents = \<lparr>documents = batch\<rparr>\<rparr>], [])
                else (batches, batch))
         in for_blob_in c gcs_bucket_name batch_size blob_list batches'
              (batch' @ [\<lparr>gcs_uri = ''gs://'' @ gcs_bucket_name @ ''/'' @ name blob,
                          mime_type = content_type blob\<rparr>])
              out))"

text \<open>
  The function itself. \<open>get_storage_client\<close> is the outcome of the imported
  \<^verbatim>\<open>_get_storage_client()\<close>; \<open>out\<close> is the log of events before the call, and the
  second component of the result is the log after it. The batch size is any integer:
  the source compares it with the maximum and with \<^verbatim>\<open>len(batch)\<close> and never with a
  lower bound. (\<^verbatim>\<open>None\<close>, which the annotation \<^verbatim>\<open>Optional[int]\<close> would allow, cannot be
  compared with an integer and is not an input of the model.) A sealed batch is copied
  into its message and \<^verbatim>\<open>batch\<close> is bound to a new list, so the batches share nothing.
\<close>

definition create_batches ::
  "constants \<Rightarrow> exn + storage_client \<Rightarrow> string \<Rightarrow> string \<Rightarrow> int \<Rightarrow> event list \<Rightarrow>
   (exn + BatchDocumentsInputConfig list) \<times> event list"
where
  "create_batches c get_storage_client gcs_bucket_name gcs_prefix batch_size out =
     (if batch_size > BATCH_MAX_FILES c then
        (Inl (ValueError (''Batch size must be less than '' @ str_int (BATCH_MAX_FILES c)
                          @ ''. You provided '' @ str_int batch_size @ ''.'')), out)
      else
        (case get_storage_client of
           Inl e \<Rightarrow> (Inl e, out @ [GetStorageClient])
         | Inr client \<Rightarrow>
            (case list_blobs client gcs_bucket_name gcs_prefix of
               Inl e \<Rightarrow> (Inl e, out @ [GetStorageClient, ListBlobs gcs_bucket_name gcs_prefix])
             | Inr blob_list \<Rightarrow>
                (case for_blob_in c gcs_bucket_name batch_size blob_list [] []
                        (out @ [GetStorageClient, ListBlobs gcs_bucket_name gcs_prefix]) of
                   (Inl e, out') \<Rightarrow> (Inl e, out')
                 | (Inr (batches, batch), out') \<Rightarrow>
                     (Inr (if batch \<noteq> []
                           then batches @ [\<lparr>gcs_documents = \<lparr>documents = batch\<rparr>\<rparr>]
                           else batches),
                      out')))))"

text \<open>
  The default of the parameter \<^verbatim>\<open>batch_size\<close> is \<^verbatim>\<open>constants.BATCH_MAX_FILES\<close>.
\<close>

definition create_batches_default ::
  "constants \<Rightarrow> exn + storage_client \<Rightarrow> string \<Rightarrow> string \<Rightarrow> event list \<Rightarrow>
   (exn + BatchDocumentsInputConfig list) \<times> event list"
where
  "create_batches_default c get_storage_client gcs_bucket_name gcs_prefix out =
     create_batches c get_storage_client gcs_bucket_name gcs_prefix (BATCH_MAX_FILES c) out"

subsection \<open>\<open>document_type_to_processor_type\<close>\<close>

text \<open>
  A dictionary literal \<^verbatim>\<open>{k1: v1, k2: v2, ...}\<close> stores its items from left to right,
  so a later item with the same key replaces an earlier one.
\<close>

definition dict_literal :: "('k \<times> 'v) list \<Rightarrow> ('k \<rightharpoonup> 'v)" where
  "dict_literal kvs = fold (\<lambda>(k, v) d. d(k \<mapsto> v)) kvs Map.empty"

text \<open>
  \<^verbatim>\<open>d.get(key, default)\<close>: the value stored under the key, or the default. The result
  is an \<open>option\<close> because the default of the source is \<^verbatim>\<open>None\<close>.
\<close>

definition dict_get :: "('k \<rightharpoonup> 'v) \<Rightarrow> 'k \<Rightarrow> 'v option \<Rightarrow> 'v option" where
  "dict_get d key dflt = (case d key of Some v \<Rightarrow> Some v | None \<Rightarrow> dflt)"

text \<open>The items of \<^verbatim>\<open>document_map\<close>, in the order of the source (lines 113 to 270).\<close>

definition document_map_items :: "(string \<times> string) list" where
  "document_map_items =
     [
      (''air_travel_statement'', ''EXPENSE_PROCESSOR''),
      (''car_rental_statement'', ''EXPENSE_PROCESSOR''),
      (''credit_card_slip'', ''EXPENSE_PROCESSOR''),
      (''credit_note'', ''INVOICE_PROCESSOR''),
      (''debit_note'', ''INVOICE_PROCESSOR''),
      (''ground_transportation_statement'', ''EXPENSE_PROCESSOR''),
      (''hotel_statement'', ''EXPENSE_PROCESSOR''),
      (''invoice_statement'', ''INVOICE_PROCESSOR''),
      (''purchase_order'', ''PURCHASE_ORDER_PROCESSOR''),
      (''receipt_statement'', ''EXPENSE_PROCESSOR''),
      (''restaurant_statement'', ''EXPENSE_PROCESSOR''),
      (''utility_statement'', ''UTILITY_PROCESSOR''),
      (''1003'', ''FORM_1003_PROCESSOR''),
      (''1003_2009'', ''FORM_1003_PROCESSOR''),
      (''1005_1996'', ''FORM_1005_PROCESSOR''),
      (''1040'', ''FORM_1040_PROCESSOR''),
      (''1040_2018'', ''FORM_1040_PROCESSOR''),
      (''1040_2019'', ''FORM_1040_PROCESSOR''),
      (''1040_2020'', ''FORM_1040_PROCESSOR''),
      (''1040_2021'', ''FORM_1040_PROCESSOR''),
      (''1040nr'', ''FORM_1040NR_PROCESSOR''),
      (''1040nr_2018'', ''FORM_1040NR_PROCESSOR''),
      (''1040nr_2019'', ''FORM_1040NR_PROCESSOR''),
      (''1040nr_2020'', ''FORM_1040NR_PROCESSOR''),
      (''1040nr_2021'', ''FORM_1040NR_PROCESSOR''),
      (''1040sc'', ''FORM_1040SCH_C_PROCESSOR''),
      (''1040sc_2018'', ''FORM_1040SCH_C_PROCESSOR''),
      (''1040sc_2019'', ''FORM_1040SCH_C_PROCESSOR''),
      (''1040sc_2020'', ''FORM_1040SCH_C_PROCESSOR''),
      (''1040sc_2021'', ''FORM_1040SCH_C_PROCESSOR''),
      (''1040sr'', ''FORM_1040SR_PROCESSOR''),
      (''1040sr_2018'', ''FORM_1040SR_PROCESSOR''),
      (''1040sr_2019'', ''FORM_1040SR_PROCESSOR''),
      (''1040sr_2020'', ''FORM_1040SR_PROCESSOR''),
      (''1040sr_2021'', ''FORM_1040SR_PROCESSOR''),
      (''1065'', ''FORM_1065_PROCESSOR''),
      (''1065_2018'', ''FORM_1065_PROCESSOR''),
      (''1065_2019'', ''FORM_1065_PROCESSOR''),
      (''1065_2020'', ''FORM_1065_PROCESSOR''),
      (''1065_2021'', ''FORM_1065_PROCESSOR''),
      (''1076_2016'', ''FORM_1076_PROCESSOR''),
      (''1099div'', ''FORM_1099DIV_PROCESSOR''),
      (''1099div_2018'', ''FORM_1099DIV_PROCESSOR''),
      (''1099div_2019'', ''FORM_1099DIV_PROCESSOR''),
      (''1099div_2020'', ''FORM_1099DIV_PROCESSOR''),
      (''1099div_2021'', ''FORM_1099DIV_PROCESSOR''),
      (''1099g'', ''FORM_1099G_PROCESSOR''),
      (''1099g_2018'', ''FORM_1099G_PROCESSOR''),
      (''1099g_2019'', ''FORM_1099G_PROCESSOR''),
      (''1099g_2020'', ''FORM_1099G_PROCESSOR''),
      (''1099g_2021'', ''FORM_1099G_PROCESSOR''),
      (''1099int'', ''FORM_1099INT_PROCESSOR''),
      (''1099int_2018'', ''FORM_1099INT_PROCESSOR''),
      (''1099int_2019'', ''FORM_1099INT_PROCESSOR''),
      (''1099int_2020'', ''FORM_1099INT_PROCESSOR''),
      (''1099int_2021'', ''FORM_1099INT_PROCESSOR''),
      (''1099misc'', ''FORM_1099MISC_PROCESSOR''),
      (''1099misc_2018'', ''FORM_1099MISC_PROCESSOR''),
      (''1099misc_2019'', ''FORM_1099MISC_PROCESSOR''),
      (''1099misc_2020'', ''FORM_1099MISC_PROCESSOR''),
      (''1099misc_2021'', ''FORM_1099MISC_PROCESSOR''),
      (''1099nec'', ''FORM_1099NEC_PROCESSOR''),
      (''1099nec_2018'', ''FORM_1099NEC_PROCESSOR''),
      (''1099nec_2019'', ''FORM_1099NEC_PROCESSOR''),
      (''1099nec_2020'', ''FORM_1099NEC_PROCESSOR''),
      (''1099nec_2021'', ''FORM_1099NEC_PROCESSOR''),
      (''1099r'', ''FORM_1099R_PROCESSOR''),
      (''1099r_2018'', ''FORM_1099R_PROCESSOR''),
      (''1099r_2019'', ''FORM_1099R_PROCESSOR''),
      (''1099r_2020'', ''FORM_1099R_PROCESSOR''),
      (''1099r_2021'', ''FORM_1099R_PROCESSOR''),
      (''1099sb'', ''FORM_1040SCH_B_PROCESSOR''),
      (''1099sb_2018'', ''FORM_1040SCH_B_PROCESSOR''),
      (''1099sb_2019'', ''FORM_1040SCH_B_PROCESSOR''),
      (''1099sb_2020'', ''FORM_1040SCH_B_PROCESSOR''),
      (''1099sb_2021'', ''FORM_1040SCH_B_PROCESSOR''),
      (''1099sd'', ''FORM_1040SCH_D_PROCESSOR''),
      (''1099sd_2018'', ''FORM_1040SCH_D_PROCESSOR''),
      (''1099sd_2019'', ''FORM_1040SCH_D_PROCESSOR''),
      (''1099sd_2020'', ''FORM_1040SCH_D_PROCESSOR''),
      (''1099sd_2021'', ''FORM_1040SCH_D_PROCESSOR''),
      (''1099se'', ''FORM_1040SCH_E_PROCESSOR''),
      (''1099se_2018'', ''FORM_1040SCH_E_PROCESSOR''),
      (''1099se_2019'', ''FORM_1040SCH_E_PROCESSOR''),
      (''1099se_2020'', ''FORM_1040SCH_E_PROCESSOR''),
      (''1099se_2021'', ''FORM_1040SCH_E_PROCESSOR''),
      (''1099ssa'', ''FORM_SSA1099_PROCESSOR''),
      (''1099ssa_2018'', ''FORM_SSA1099_PROCESSOR''),
      (''1099ssa_2019'', ''FORM_SSA1099_PROCESSOR''),
      (''1099ssa_2020'', ''FORM_SSA1099_PROCESSOR''),
      (''1099ssa_2021'', ''FORM_SSA1099_PROCESSOR''),
      (''1120'', ''FORM_1120_PROCESSOR''),
      (''1120_2018'', ''FORM_1120_PROCESSOR''),
      (''1120_2019'', ''FORM_1120_PROCESSOR''),
      (''1120_2020'', ''FORM_1120_PROCESSOR''),
      (''1120_2021'', ''FORM_1120_PROCESSOR''),
      (''1120s'', ''FORM_1120S_PROCESSOR''),
      (''1120s_2018'', ''FORM_1120S_PROCESSOR''),
      (''1120s_2019'', ''FORM_1120S_PROCESSOR''),
      (''1120s_2020'', ''FORM_1120S_PROCESSOR''),
      (''1120s_2021'', ''FORM_1120S_PROCESSOR''),
      (''1_4_Family_Rider_3170'', ''FORM_FAMILY_RIDER_PROCESSOR''),
      (''3108_Adjustable_Rate_Rider'', ''FORM_ADJUSTABLE_RIDER_PROCESSOR''),
      (''3140_Condominium_Rider'', ''FORM_CONDOMINIUM_RIDER_PROCESSOR''),
      (''3190_Balloon_Rider'', ''FORM_BALLOON_RIDER_PROCESSOR''),
      (''3890_Second_Home_Rider'', ''FORM_SECOND_HOME_RIDER_PROCESSOR''),
      (''4506_T'', ''FORM_4506T_PROCESSOR''),
      (''4506_T_2018'', ''FORM_4506T_PROCESSOR''),
      (''4506_T_2019'', ''FORM_4506T_PROCESSOR''),
      (''4506_T_2020'', ''FORM_4506T_PROCESSOR''),
      (''4506_T_2021'', ''FORM_4506T_PROCESSOR''),
      (''4506_T_EZ'', ''FORM_4506T_EZ_PROCESSOR''),
      (''4506_T_EZ_2018'', ''FORM_4506T_EZ_PROCESSOR''),
      (''4506_T_EZ_2019'', ''FORM_4506T_EZ_PROCESSOR''),
      (''4506_T_EZ_2020'', ''FORM_4506T_EZ_PROCESSOR''),
      (''4506_T_EZ_2021'', ''FORM_4506T_EZ_PROCESSOR''),
      (''account_statement_bank'', ''BANK_STATEMENT_PROCESSOR''),
      (''account_statement_investment_and_retirement'', ''RETIREMENT_INVESTMENT_STATEMENT_PROCESSOR''),
      (''dhs_flood_certification'', ''FORM_FLOOD_CERTIFICATE_PROCESSOR''),
      (''f11_12956_2017'', ''FORM_F11_12956_PROCESSOR''),
      (''hud_54114'', ''FORM_HUD54114_PROCESSOR''),
      (''hud_92051'', ''FORM_HUD92051_PROCESSOR''),
      (''hud_92541'', ''FORM_HUD92541_PROCESSOR''),
      (''hud_92544'', ''FORM_HUD92544_PROCESSOR''),
      (''hud_92800'', ''FORM_HUD92800_PROCESSOR''),
      (''hud_92900a'', ''FORM_HUD92900A_PROCESSOR''),
      (''hud_92900b'', ''FORM_HUD92900B_PROCESSOR''),
      (''hud_92900lt'', ''FORM_HUD92900LT_PROCESSOR''),
      (''hud_92900ws'', ''FORM_HUD92900WS_PROCESSOR''),
      (''mortgage_statements'', ''MORTGAGE_STATEMENT_PROCESSOR''),
      (''payslip'', ''PAYSTUB_PROCESSOR''),
      (''property_insurance'', ''PROPERTY_INSURANCE_PROCESSOR''),
      (''pud_rider'', ''FORM_PUD_RIDER_PROCESSOR''),
      (''revocable_trust_rider'', ''FORM_REVOCABLE_TRUST_RIDER_PROCESSOR''),
      (''ssa_89'', ''FORM_SSA89_PROCESSOR''),
      (''ssa_89_2018'', ''FORM_SSA89_PROCESSOR''),
      (''ssa_89_2019'', ''FORM_SSA89_PROCESSOR''),
      (''ssa_89_2020'', ''FORM_SSA89_PROCESSOR''),
      (''ssa_89_2021'', ''FORM_SSA89_PROCESSOR''),
      (''ucc_financing_statement'', ''FORM_UCC1_PROCESSOR''),
      (''usda_ad_3030'', ''FORM_USDA_CONDITIONAL_COMMITMENT_PROCESSOR''),
      (''vba_26_0551_2004'', ''FORM_VBA26_0551_PROCESSOR''),
      (''vba_26_8923_2021'', ''FORM_VBA26_8923_PROCESSOR''),
      (''w2'', ''FORM_W2_PROCESSOR''),
      (''w2_2018'', ''FORM_W2_PROCESSOR''),
      (''w2_2019'', ''FORM_W2_PROCESSOR''),
      (''w2_2020'', ''FORM_W2_PROCESSOR''),
      (''w2_2021'', ''FORM_W2_PROCESSOR''),
      (''w9'', ''FORM_W9_PROCESSOR''),
      (''w9_2017'', ''FORM_W9_PROCESSOR''),
      (''w9_2018'', ''FORM_W9_PROCESSOR''),
      (''w9_2019'', ''FORM_W9_PROCESSOR''),
      (''w9_2020'', ''FORM_W9_PROCESSOR''),
      (''w9_2021'', ''FORM_W9_PROCESSOR''),
      (''us_driver_license'', ''US_DRIVER_LICENSE_PROCESSOR''),
      (''us_passport'', ''US_PASSPORT_PROCESSOR'')
     ]"

definition document_map :: "string \<rightharpoonup> string" where
  "document_map = dict_literal document_map_items"

definition document_type_to_processor_type :: "string \<Rightarrow> string option" where
  "document_type_to_processor_type document_type = dict_get document_map document_type None"

subsection \<open>Notions used to state the properties\<close>

text \<open>The blobs an iterator yields before it ends or raises, and the exception it ends with.\<close>

fun yielded :: "blob_iterator \<Rightarrow> blob list" where
  "yielded StopIteration = []"
| "yielded (Raises e) = []"
| "yielded (Yield b it) = b # yielded it"

fun raised :: "blob_iterator \<Rightarrow> exn option" where
  "raised StopIteration = None"
| "raised (Raises e) = Some e"
| "raised (Yield b it) = raised it"

text \<open>The iterator over a listing that completes.\<close>

fun iter :: "blob list \<Rightarrow> blob_iterator" where
  "iter [] = StopIteration"
| "iter (b # bs) = Yield b (iter bs)"

text \<open>A client whose \<^verbatim>\<open>list_blobs\<close> returns the given iterator.\<close>

definition client_listing :: "blob_iterator \<Rightarrow> storage_client" where
  "client_listing it = \<lparr>list_blobs = (\<lambda>bucket prefix. Inr it)\<rparr>"

text \<open>
  An eligible object, in the words of the specification: not a directory placeholder,
  of a valid MIME type, and of a size within the limit.
\<close>

definition eligible :: "constants \<Rightarrow> blob \<Rightarrow> bool" where
  "eligible c b \<longleftrightarrow>
     \<not> endswith (name b) ''/'' \<and> content_type b \<in> VALID_MIME_TYPES c
     \<and> size_bytes b \<le> BATCH_MAX_FILE_SIZE c"

text \<open>The document reference of a blob, and the descriptor that wraps a batch.\<close>

definition document_of :: "string \<Rightarrow> blob \<Rightarrow> GcsDocument" where
  "document_of gcs_bucket_name b =
     \<lparr>gcs_uri = ''gs://'' @ gcs_bucket_name @ ''/'' @ name b, mime_type = content_type b\<rparr>"

definition descriptor :: "GcsDocument list \<Rightarrow> BatchDocumentsInputConfig" where
  "descriptor batch = \<lparr>gcs_documents = \<lparr>documents = batch\<rparr>\<rparr>"

text \<open>The number of documents of a descriptor.\<close>

definition batch_length :: "BatchDocumentsInputConfig \<Rightarrow> nat" where
  "batch_length b = length (documents (gcs_documents b))"

text \<open>All the documents of a list of descriptors, in order.\<close>

definition all_documents :: "BatchDocumentsInputConfig list \<Rightarrow> GcsDocument list" where
  "all_documents bs = concat (map (\<lambda>b. documents (gcs_documents b)) bs)"

text \<open>
  One pass of the loop body for an accepted document, the final
  \<^verbatim>\<open>if batch != []\<close>, and the messages printed for one blob.
\<close>

fun add_document ::
  "int \<Rightarrow> BatchDocumentsInputConfig list \<times> GcsDocument list \<Rightarrow> GcsDocument \<Rightarrow>
   BatchDocumentsInputConfig list \<times> GcsDocument list" where
  "add_document batch_size (batches, batch) d =
     (if int (length batch) = batch_size then (batches @ [descriptor batch], [d])
      else (batches, batch @ [d]))"

fun seal ::
  "BatchDocumentsInputConfig list \<times> GcsDocument list \<Rightarrow> BatchDocumentsInputConfig list" where
  "seal (batches, batch) = (if batch \<noteq> [] then batches @ [descriptor batch] else batches)"

definition diagnostics :: "constants \<Rightarrow> blob \<Rightarrow> event list" where
  "diagnostics c b =
     (if endswith (name b) ''/'' then []
      else if content_type b \<notin> VALID_MIME_TYPES c then
        [Print (''Skipping file '' @ name b @ ''. Invalid Mime Type '' @ content_type b @ ''.'')]
      else if size_bytes b > BATCH_MAX_FILE_SIZE c then
        [Print (''Skipping file '' @ name b @ ''. File size must be less than ''
                @ str_int (BATCH_MAX_FILE_SIZE c) @ '' bytes. File size is ''
                @ str_int (size_bytes b) @ '' bytes.'')]
      else [])"

text \<open>A list cut into pieces of \<open>n\<close> elements, the last piece holding what is left.\<close>

function chunks :: "nat \<Rightarrow> 'a list \<Rightarrow> 'a list list" where
  "chunks n xs = (if n = 0 \<or> xs = [] then [] else take n xs # chunks n (drop n xs))"
  by pat_completeness auto
termination
  by (relation "measure (\<lambda>(n, xs). length xs)") auto

declare chunks.simps [simp del]

text \<open>The calls of \<^verbatim>\<open>list_blobs\<close> among the events of a log.\<close>

fun is_listing_call :: "event \<Rightarrow> bool" where
  "is_listing_call (ListBlobs bucket prefix) = True"
| "is_listing_call e = False"

subsection \<open>Values for the examples\<close>

text \<open>
  The constants as the library sets them: at most 50 files in a batch, at most 1 GiB for
  a file, and the MIME types Document AI accepts.
\<close>

definition example_constants :: constants where
  "example_constants =
     \<lparr>BATCH_MAX_FILES = 50,
      BATCH_MAX_FILE_SIZE = 1073741824,
      VALID_MIME_TYPES = {''application/pdf'', ''image/bmp'', ''image/gif'', ''image/jpeg'',
                          ''image/png'', ''image/tiff'', ''image/webp''}\<rparr>"

definition pdf :: "string \<Rightarrow> int \<Rightarrow> blob" where
  "pdf n s = \<lparr>name = n, content_type = ''application/pdf'', size_bytes = s\<rparr>"

definition example_listing :: "blob list" where
  "example_listing =
     [pdf ''a.pdf'' 100,
      \<lparr>name = ''dir/'', content_type = ''application/octet-stream'', size_bytes = 0\<rparr>,
      \<lparr>name = ''b.txt'', content_type = ''text/plain'', size_bytes = 100\<rparr>,
      pdf ''c.pdf'' 2000000000,
      pdf ''d.pdf'' 100]"

text \<open>A listing of \<open>k\<close> PDF files of 100 bytes with different names.\<close>

definition numbered_listing :: "nat \<Rightarrow> blob list" where
  "numbered_listing k = map (\<lambda>i. pdf (''doc'' @ str_nat i @ ''.pdf'') 100) [0..<k]"

section \<open>Properties\<close>

subsection \<open>The loop\<close>

lemma for_blob_in_fst:
  "fst (for_blob_in c bkt n it batches batch out) =
     (case raised it of
        Some e \<Rightarrow> Inl e
      | None \<Rightarrow> Inr (foldl (add_document n) (batches, batch)
                       (map (document_of bkt) (filter (eligible c) (yielded it)))))"
  by (induction it arbitrary: batches batch out)
     (auto simp: eligible_def document_of_def descriptor_def split: option.splits)

lemma for_blob_in_snd:
  "snd (for_blob_in c bkt n it batches batch out) =
     out @ concat (map (diagnostics c) (yielded it))"
  by (induction it arbitrary: batches batch out) (simp_all add: diagnostics_def)

subsection \<open>Cutting a list into pieces\<close>

lemma chunks_Nil [simp]: "chunks n [] = []"
  by (simp add: chunks.simps)

lemma chunks_nonempty: "0 < n \<Longrightarrow> xs \<noteq> [] \<Longrightarrow> chunks n xs = take n xs # chunks n (drop n xs)"
  by (subst chunks.simps) simp

lemma concat_chunks: "0 < n \<Longrightarrow> concat (chunks n xs) = xs"
  by (induction n xs rule: chunks.induct) (subst chunks.simps, simp)

lemma length_chunks: "0 < n \<Longrightarrow> length (chunks n xs) = (length xs + n - 1) div n"
proof (induction n xs rule: chunks.induct)
  case (1 n xs)
  show ?case
  proof (cases "xs = []")
    case True
    with 1 show ?thesis by simp
  next
    case False
    then have len: "0 < length xs" by simp
    have "length (chunks n xs) = Suc ((length (drop n xs) + n - 1) div n)"
      using 1 False by (simp add: chunks_nonempty)
    also have "\<dots> = (length xs + n - 1) div n"
    proof (cases "n \<le> length xs")
      case True
      then have "length xs + n - 1 = (length xs - n + n - 1) + n" using 1(2) by simp
      then show ?thesis using 1(2) by (simp del: add_diff_assoc add_diff_assoc2)
    next
      case False
      then have "length (drop n xs) = 0" by simp
      moreover have "n \<le> length xs + n - 1" "length xs + n - 1 < 2 * n"
        using False len 1(2) by arith+
      then have "(length xs + n - 1) div n = 1"
        by (intro div_nat_eqI) simp_all
      ultimately show ?thesis using 1(2) by simp
    qed
    finally show ?thesis .
  qed
qed

lemma nth_chunks:
  "0 < n \<Longrightarrow> i < length (chunks n xs) \<Longrightarrow> chunks n xs ! i = take n (drop (i * n) xs)"
proof (induction n xs arbitrary: i rule: chunks.induct)
  case (1 n xs)
  from 1(3) have ne: "xs \<noteq> []" by auto
  show ?case
  proof (cases i)
    case 0
    with 1 ne show ?thesis by (simp add: chunks_nonempty)
  next
    case (Suc j)
    with 1 ne have "chunks n xs ! i = take n (drop (j * n) (drop n xs))"
      by (simp add: chunks_nonempty)
    then show ?thesis using Suc by (simp add: add.commute)
  qed
qed

lemma add_document_chunks:
  "0 < n \<Longrightarrow> length batch \<le> n \<Longrightarrow>
   seal (foldl (add_document (int n)) (batches, batch) ds)
     = batches @ map descriptor (chunks n (batch @ ds))"
proof (induction ds arbitrary: batches batch)
  case Nil
  then show ?case by (cases "batch = []") (simp_all add: chunks_nonempty)
next
  case (Cons d ds)
  show ?case
  proof (cases "length batch = n")
    case True
    have "seal (foldl (add_document (int n)) (batches, batch) (d # ds))
            = seal (foldl (add_document (int n)) (batches @ [descriptor batch], [d]) ds)"
      using True by simp
    also have "\<dots> = (batches @ [descriptor batch]) @ map descriptor (chunks n ([d] @ ds))"
      using Cons.prems by (intro Cons.IH) simp_all
    also have "\<dots> = batches @ map descriptor (chunks n (batch @ d # ds))"
      using True Cons.prems by (simp add: chunks_nonempty [of n "batch @ d # ds"])
    finally show ?thesis .
  next
    case False
    with Cons.prems have "length (batch @ [d]) \<le> n" by simp
    from Cons.IH [OF Cons.prems(1) this, of batches] False show ?thesis by simp
  qed
qed

lemma add_document_never:
  "batch_size < int (length batch) \<Longrightarrow>
   foldl (add_document batch_size) (batches, batch) ds = (batches, batch @ ds)"
  by (induction ds arbitrary: batch) simp_all

subsection \<open>The whole function\<close>

lemma create_batches_fst:
  assumes "batch_size \<le> BATCH_MAX_FILES c" and "list_blobs client bkt pfx = Inr it"
  shows "fst (create_batches c (Inr client) bkt pfx batch_size out) =
           (case raised it of
              Some e \<Rightarrow> Inl e
            | None \<Rightarrow> Inr (seal (foldl (add_document batch_size) ([], [])
                             (map (document_of bkt) (filter (eligible c) (yielded it))))))"
proof -
  let ?w = "out @ [GetStorageClient, ListBlobs bkt pfx]"
  obtain r w' where run: "for_blob_in c bkt batch_size it [] [] ?w = (r, w')"
    by (cases "for_blob_in c bkt batch_size it [] [] ?w") blast
  have r: "r = (case raised it of
                  Some e \<Rightarrow> Inl e
                | None \<Rightarrow> Inr (foldl (add_document batch_size) ([], [])
                                  (map (document_of bkt) (filter (eligible c) (yielded it)))))"
    using for_blob_in_fst [of c bkt batch_size it "[]" "[]" ?w] run by simp
  show ?thesis
  proof (cases "raised it")
    case None
    obtain batches batch where st:
      "foldl (add_document batch_size) ([], [])
         (map (document_of bkt) (filter (eligible c) (yielded it))) = (batches, batch)"
      by (cases "foldl (add_document batch_size) ([], [])
                   (map (document_of bkt) (filter (eligible c) (yielded it)))") blast
    from assms run r None st show ?thesis
      by (simp add: create_batches_def descriptor_def)
  next
    case (Some e)
    with assms run r show ?thesis by (simp add: create_batches_def)
  qed
qed

lemma create_batches_snd:
  assumes "batch_size \<le> BATCH_MAX_FILES c" and "list_blobs client bkt pfx = Inr it"
  shows "snd (create_batches c (Inr client) bkt pfx batch_size out) =
           out @ [GetStorageClient, ListBlobs bkt pfx] @ concat (map (diagnostics c) (yielded it))"
proof -
  let ?w = "out @ [GetStorageClient, ListBlobs bkt pfx]"
  obtain r w' where run: "for_blob_in c bkt batch_size it [] [] ?w = (r, w')"
    by (cases "for_blob_in c bkt batch_size it [] [] ?w") blast
  have w': "w' = ?w @ concat (map (diagnostics c) (yielded it))"
    using for_blob_in_snd [of c bkt batch_size it "[]" "[]" ?w] run by simp
  from assms run w' show ?thesis
    by (cases r) (auto simp: create_batches_def split: prod.splits)
qed

lemma create_batches_Inr_D:
  assumes "fst (create_batches c gsc bkt pfx batch_size out) = Inr bs"
  shows "batch_size \<le> BATCH_MAX_FILES c \<and>
         (\<exists>client it. gsc = Inr client \<and> list_blobs client bkt pfx = Inr it \<and> raised it = None)"
proof -
  have le: "batch_size \<le> BATCH_MAX_FILES c"
    using assms by (auto simp: create_batches_def split: if_splits)
  obtain client where gsc: "gsc = Inr client"
    using assms le by (cases gsc) (auto simp: create_batches_def)
  obtain it where it: "list_blobs client bkt pfx = Inr it"
    using assms le gsc by (cases "list_blobs client bkt pfx") (auto simp: create_batches_def)
  have "raised it = None"
    using assms create_batches_fst [OF le it, of out] gsc by (cases "raised it") auto
  with le gsc it show ?thesis by blast
qed

lemma listing_calls_diagnostics:
  "filter is_listing_call (concat (map (diagnostics c) bs)) = []"
  by (induction bs) (simp_all add: diagnostics_def)

subsection \<open>Validation of the batch size\<close>

text \<open>
  Claim C3. A batch size strictly greater than \<open>BATCH_MAX_FILES\<close> makes
  \<open>create_batches\<close> raise a \<open>ValueError\<close> at once: the result is that error, not a list
  of batches, and the log of events is the one before the call, so no storage client was
  asked for, no listing call was issued and nothing was printed.
\<close>

theorem create_batches_rejects_large_batch_size:
  "BATCH_MAX_FILES c < batch_size \<Longrightarrow>
   create_batches c get_storage_client gcs_bucket_name gcs_prefix batch_size out =
     (Inl (ValueError (''Batch size must be less than '' @ str_int (BATCH_MAX_FILES c)
                       @ ''. You provided '' @ str_int batch_size @ ''.'')), out)"
  by (simp add: create_batches_def)

theorem create_batches_rejects_large_batch_size_witness:
  "BATCH_MAX_FILES example_constants < 51 \<and>
   create_batches example_constants (Inr (client_listing (iter example_listing)))
       ''bucket'' ''folder'' 51 [] =
     (Inl (ValueError ''Batch size must be less than 50. You provided 51.''), [])"
  using create_batches_rejects_large_batch_size
          [of example_constants 51 "Inr (client_listing (iter example_listing))"
              "''bucket''" "''folder''" "[]"]
  by (simp add: example_constants_def str_int_def str_nat.simps digit_char_def)

subsection \<open>Failures of the storage collaborator\<close>

text \<open>
  Claim C8. With a valid batch size, when the iterator returned by \<^verbatim>\<open>list_blobs\<close>
  raises while the loop consumes it, \<open>create_batches\<close> ends with that very exception:
  it is not caught and not wrapped. The listing is not retried: the call adds exactly
  one \<^verbatim>\<open>list_blobs\<close> call to the log.
\<close>

theorem create_batches_propagates_listing_failure:
  assumes "batch_size \<le> BATCH_MAX_FILES c"
    and "list_blobs client gcs_bucket_name gcs_prefix = Inr blob_list"
    and "raised blob_list = Some e"
  shows "fst (create_batches c (Inr client) gcs_bucket_name gcs_prefix batch_size out) = Inl e
       \<and> filter is_listing_call
            (snd (create_batches c (Inr client) gcs_bucket_name gcs_prefix batch_size out))
          = filter is_listing_call out @ [ListBlobs gcs_bucket_name gcs_prefix]"
  using assms
  by (simp add: create_batches_fst create_batches_snd listing_calls_diagnostics)

theorem create_batches_propagates_listing_failure_witness:
  "(2::int) \<le> BATCH_MAX_FILES example_constants
   \<and> list_blobs (client_listing (Yield (pdf ''a.pdf'' 100) (Raises (CollaboratorError ''503''))))
        ''bucket'' ''folder''
       = Inr (Yield (pdf ''a.pdf'' 100) (Raises (CollaboratorError ''503'')))
   \<and> raised (Yield (pdf ''a.pdf'' 100) (Raises (CollaboratorError ''503'')))
       = Some (CollaboratorError ''503'')
   \<and> fst (create_batches example_constants
            (Inr (client_listing (Yield (pdf ''a.pdf'' 100) (Raises (CollaboratorError ''503'')))))
            ''bucket'' ''folder'' 2 []) = Inl (CollaboratorError ''503'')
   \<and> snd (create_batches example_constants
            (Inr (client_listing (Yield (pdf ''a.pdf'' 100) (Raises (CollaboratorError ''503'')))))
            ''bucket'' ''folder'' 2 []) = [GetStorageClient, ListBlobs ''bucket'' ''folder'']"
proof -
  let ?it = "Yield (pdf ''a.pdf'' 100) (Raises (CollaboratorError ''503''))"
  have a: "(2::int) \<le> BATCH_MAX_FILES example_constants" by (simp add: example_constants_def)
  have b: "list_blobs (client_listing ?it) ''bucket'' ''folder'' = Inr ?it"
    by (simp add: client_listing_def)
  have c: "raised ?it = Some (CollaboratorError ''503'')" by simp
  have d: "snd (create_batches example_constants (Inr (client_listing ?it))
                  ''bucket'' ''folder'' 2 []) = [GetStorageClient, ListBlobs ''bucket'' ''folder'']"
    by (simp add: create_batches_def client_listing_def example_constants_def pdf_def endswith_def)
  from create_batches_propagates_listing_failure [OF a b c, of "[]"] a b c d
  show ?thesis by simp
qed

subsection \<open>The documents of the batches\<close>

lemma all_documents_append [simp]:
  "all_documents (xs @ ys) = all_documents xs @ all_documents ys"
  by (simp add: all_documents_def)

lemma all_documents_Nil [simp]: "all_documents [] = []"
  by (simp add: all_documents_def)

lemma all_documents_descriptor [simp]: "all_documents [descriptor batch] = batch"
  by (simp add: all_documents_def descriptor_def)

lemma all_documents_add_document:
  "all_documents (seal (foldl (add_document batch_size) (batches, batch) ds))
     = all_documents batches @ batch @ ds"
  by (induction ds arbitrary: batches batch) simp_all

lemma create_batches_all_documents:
  assumes "batch_size \<le> BATCH_MAX_FILES c" and "list_blobs client bkt pfx = Inr it"
    and "raised it = None"
  shows "\<exists>bs. fst (create_batches c (Inr client) bkt pfx batch_size out) = Inr bs
            \<and> all_documents bs = map (document_of bkt) (filter (eligible c) (yielded it))"
  using assms by (simp add: create_batches_fst all_documents_add_document)

lemma example_run:
  "create_batches example_constants (Inr (client_listing (iter example_listing)))
       ''bucket'' ''folder'' 2 []
     = (Inr [\<lparr>gcs_documents = \<lparr>documents =
               [\<lparr>gcs_uri = ''gs://bucket/a.pdf'', mime_type = ''application/pdf''\<rparr>,
                \<lparr>gcs_uri = ''gs://bucket/d.pdf'', mime_type = ''application/pdf''\<rparr>]\<rparr>\<rparr>],
        [GetStorageClient, ListBlobs ''bucket'' ''folder'',
         Print ''Skipping file b.txt. Invalid Mime Type text/plain.'',
         Print ''Skipping file c.pdf. File size must be less than 1073741824 bytes. File size is 2000000000 bytes.''])"
  by (simp add: create_batches_def client_listing_def example_constants_def example_listing_def
        pdf_def endswith_def str_int_def str_nat.simps digit_char_def)

lemma yielded_iter [simp]: "yielded (iter bs) = bs"
  by (induction bs) simp_all

lemma raised_iter [simp]: "raised (iter bs) = None"
  by (induction bs) simp_all

lemma example_eligible:
  "filter (eligible example_constants) example_listing = [pdf ''a.pdf'' 100, pdf ''d.pdf'' 100]"
  by (simp add: example_listing_def eligible_def example_constants_def pdf_def endswith_def)

text \<open>
  Claim C9. When the call succeeds, the documents of the batches, taken in order, are as
  many as the eligible blobs of the listing, and the document at each position has as
  \<open>gcs_uri\<close> the string \<^verbatim>\<open>gs://\<close>, the bucket name, \<^verbatim>\<open>/\<close> and the name of the eligible blob
  at that position, and as \<open>mime_type\<close> the content type of that blob.
\<close>

theorem create_batches_document_fields:
  assumes "batch_size \<le> BATCH_MAX_FILES c"
    and "list_blobs client gcs_bucket_name gcs_prefix = Inr blob_list"
    and "raised blob_list = None"
  shows "\<exists>bs. fst (create_batches c (Inr client) gcs_bucket_name gcs_prefix batch_size out) = Inr bs
          \<and> length (all_documents bs) = length (filter (eligible c) (yielded blob_list))
          \<and> (\<forall>i < length (all_documents bs).
                gcs_uri (all_documents bs ! i)
                  = ''gs://'' @ gcs_bucket_name @ ''/'' @ name (filter (eligible c) (yielded blob_list) ! i)
              \<and> mime_type (all_documents bs ! i)
                  = content_type (filter (eligible c) (yielded blob_list) ! i))"
proof -
  from create_batches_all_documents [OF assms, of out] obtain bs where
    bs: "fst (create_batches c (Inr client) gcs_bucket_name gcs_prefix batch_size out) = Inr bs"
    and docs: "all_documents bs
                = map (document_of gcs_bucket_name) (filter (eligible c) (yielded blob_list))"
    by (elim exE conjE)
  from docs have "length (all_documents bs) = length (filter (eligible c) (yielded blob_list))"
    by simp
  moreover from docs have "\<forall>i < length (all_documents bs).
      gcs_uri (all_documents bs ! i)
        = ''gs://'' @ gcs_bucket_name @ ''/'' @ name (filter (eligible c) (yielded blob_list) ! i)
    \<and> mime_type (all_documents bs ! i)
        = content_type (filter (eligible c) (yielded blob_list) ! i)"
    by (simp add: document_of_def)
  ultimately show ?thesis using bs by (intro exI [of _ bs] conjI)
qed

theorem create_batches_document_fields_witness:
  "(2::int) \<le> BATCH_MAX_FILES example_constants
   \<and> list_blobs (client_listing (iter example_listing)) ''bucket'' ''folder''
       = Inr (iter example_listing)
   \<and> raised (iter example_listing) = None
   \<and> (\<exists>bs. fst (create_batches example_constants (Inr (client_listing (iter example_listing)))
                  ''bucket'' ''folder'' 2 []) = Inr bs
          \<and> length (all_documents bs) = 2
          \<and> gcs_uri (all_documents bs ! 0) = ''gs://bucket/a.pdf''
          \<and> mime_type (all_documents bs ! 0) = ''application/pdf''
          \<and> gcs_uri (all_documents bs ! 1) = ''gs://bucket/d.pdf''
          \<and> mime_type (all_documents bs ! 1) = ''application/pdf'')"
proof -
  have a: "(2::int) \<le> BATCH_MAX_FILES example_constants" by (simp add: example_constants_def)
  have b: "list_blobs (client_listing (iter example_listing)) ''bucket'' ''folder''
             = Inr (iter example_listing)"
    by (simp add: client_listing_def)
  have c: "raised (iter example_listing) = None" by simp
  have e: "length [pdf ''a.pdf'' 100, pdf ''d.pdf'' 100] = 2" by simp
  from create_batches_document_fields
         [OF a b c, of "[]", unfolded yielded_iter example_eligible e]
  obtain bs where
    bs: "fst (create_batches example_constants (Inr (client_listing (iter example_listing)))
                ''bucket'' ''folder'' 2 []) = Inr bs"
    and len: "length (all_documents bs) = 2"
    and fields: "\<forall>i < length (all_documents bs).
        gcs_uri (all_documents bs ! i)
          = ''gs://'' @ ''bucket'' @ ''/'' @ name ([pdf ''a.pdf'' 100, pdf ''d.pdf'' 100] ! i)
      \<and> mime_type (all_documents bs ! i)
          = content_type ([pdf ''a.pdf'' 100, pdf ''d.pdf'' 100] ! i)"
    by (elim exE conjE)
  from fields [rule_format, of 0] len
  have f0: "gcs_uri (all_documents bs ! 0) = ''gs://bucket/a.pdf''"
    and m0: "mime_type (all_documents bs ! 0) = ''application/pdf''"
    by (simp_all add: pdf_def)
  from fields [rule_format, of 1] len
  have f1: "gcs_uri (all_documents bs ! 1) = ''gs://bucket/d.pdf''"
    and m1: "mime_type (all_documents bs ! 1) = ''application/pdf''"
    by (simp_all add: pdf_def)
  from bs len f0 m0 f1 m1
  have "\<exists>bs. fst (create_batches example_constants (Inr (client_listing (iter example_listing)))
                  ''bucket'' ''folder'' 2 []) = Inr bs
          \<and> length (all_documents bs) = 2
          \<and> gcs_uri (all_documents bs ! 0) = ''gs://bucket/a.pdf''
          \<and> mime_type (all_documents bs ! 0) = ''application/pdf''
          \<and> gcs_uri (all_documents bs ! 1) = ''gs://bucket/d.pdf''
          \<and> mime_type (all_documents bs ! 1) = ''application/pdf''"
    by (intro exI [of _ bs] conjI)
  with a b c show ?thesis by (intro conjI)
qed

subsection \<open>The blobs that are skipped\<close>

lemma eligible_iff_not_skipped:
  "eligible c = (\<lambda>b. \<not> (endswith (name b) ''/'' \<or> content_type b \<notin> VALID_MIME_TYPES c
                           \<or> size_bytes b > BATCH_MAX_FILE_SIZE c))"
  by (auto simp: eligible_def fun_eq_iff)

text \<open>
  Claim C4. Whatever the listing, every document of every emitted batch is the document
  of a blob of the listing whose name does not end in \<^verbatim>\<open>/\<close>, whose content type is in
  \<open>VALID_MIME_TYPES\<close> and whose size does not exceed \<open>BATCH_MAX_FILE_SIZE\<close>. Where the
  other blobs stand in the listing does not matter: the listing without them gives the
  same batches.
\<close>

theorem create_batches_excludes_skipped_blobs:
  assumes "fst (create_batches c get_storage_client gcs_bucket_name gcs_prefix batch_size out)
             = Inr bs"
    and "get_storage_client = Inr client"
    and "list_blobs client gcs_bucket_name gcs_prefix = Inr blob_list"
  shows "(\<forall>d \<in> set (all_documents bs). \<exists>b \<in> set (yielded blob_list).
             \<not> endswith (name b) ''/''
           \<and> content_type b \<in> VALID_MIME_TYPES c
           \<and> \<not> size_bytes b > BATCH_MAX_FILE_SIZE c
           \<and> d = \<lparr>gcs_uri = ''gs://'' @ gcs_bucket_name @ ''/'' @ name b,
                    mime_type = content_type b\<rparr>)
       \<and> fst (create_batches c
                (Inr (client_listing (iter (filter
                   (\<lambda>b. \<not> (endswith (name b) ''/'' \<or> content_type b \<notin> VALID_MIME_TYPES c
                             \<or> size_bytes b > BATCH_MAX_FILE_SIZE c))
                   (yielded blob_list)))))
                gcs_bucket_name gcs_prefix batch_size out) = Inr bs"
proof -
  from create_batches_Inr_D [OF assms(1)] assms(2,3)
  have le: "batch_size \<le> BATCH_MAX_FILES c" and ok: "raised blob_list = None"
    by auto
  let ?accepted = "filter (eligible c) (yielded blob_list)"
  have bs: "bs = seal (foldl (add_document batch_size) ([], [])
                        (map (document_of gcs_bucket_name) ?accepted))"
    using assms create_batches_fst [OF le assms(3), of out] ok by simp
  then have docs: "all_documents bs = map (document_of gcs_bucket_name) ?accepted"
    by (simp add: all_documents_add_document)
  have first: "\<forall>d \<in> set (all_documents bs). \<exists>b \<in> set (yielded blob_list).
             \<not> endswith (name b) ''/''
           \<and> content_type b \<in> VALID_MIME_TYPES c
           \<and> \<not> size_bytes b > BATCH_MAX_FILE_SIZE c
           \<and> d = \<lparr>gcs_uri = ''gs://'' @ gcs_bucket_name @ ''/'' @ name b,
                    mime_type = content_type b\<rparr>"
    unfolding docs by (auto simp: eligible_def document_of_def)
  have listing: "list_blobs (client_listing (iter ?accepted)) gcs_bucket_name gcs_prefix
                   = Inr (iter ?accepted)"
    by (simp add: client_listing_def)
  have "fst (create_batches c (Inr (client_listing (iter ?accepted)))
               gcs_bucket_name gcs_prefix batch_size out) = Inr bs"
    using create_batches_fst [OF le listing, of out] bs by simp
  then have second: "fst (create_batches c
                (Inr (client_listing (iter (filter
                   (\<lambda>b. \<not> (endswith (name b) ''/'' \<or> content_type b \<notin> VALID_MIME_TYPES c
                             \<or> size_bytes b > BATCH_MAX_FILE_SIZE c))
                   (yielded blob_list)))))
                gcs_bucket_name gcs_prefix batch_size out) = Inr bs"
    by (simp only: eligible_iff_not_skipped)
  from first second show ?thesis by (rule conjI)
qed

theorem create_batches_excludes_skipped_blobs_witness:
  "fst (create_batches example_constants (Inr (client_listing (iter example_listing)))
          ''bucket'' ''folder'' 2 [])
     = Inr [descriptor [document_of ''bucket'' (pdf ''a.pdf'' 100),
                        document_of ''bucket'' (pdf ''d.pdf'' 100)]]
   \<and> list_blobs (client_listing (iter example_listing)) ''bucket'' ''folder''
       = Inr (iter example_listing)
   \<and> (\<exists>b \<in> set example_listing.
             \<not> endswith (name b) ''/''
           \<and> content_type b \<in> VALID_MIME_TYPES example_constants
           \<and> \<not> size_bytes b > BATCH_MAX_FILE_SIZE example_constants
           \<and> document_of ''bucket'' (pdf ''d.pdf'' 100)
               = \<lparr>gcs_uri = ''gs://'' @ ''bucket'' @ ''/'' @ name b, mime_type = content_type b\<rparr>)
   \<and> fst (create_batches example_constants
            (Inr (client_listing (iter (filter
               (\<lambda>b. \<not> (endswith (name b) ''/''
                         \<or> content_type b \<notin> VALID_MIME_TYPES example_constants
                         \<or> size_bytes b > BATCH_MAX_FILE_SIZE example_constants))
               example_listing))))
            ''bucket'' ''folder'' 2 [])
       = Inr [descriptor [document_of ''bucket'' (pdf ''a.pdf'' 100),
                          document_of ''bucket'' (pdf ''d.pdf'' 100)]]"
proof -
  let ?bs = "[descriptor [document_of ''bucket'' (pdf ''a.pdf'' 100),
                          document_of ''bucket'' (pdf ''d.pdf'' 100)]]"
  have a: "fst (create_batches example_constants (Inr (client_listing (iter example_listing)))
                  ''bucket'' ''folder'' 2 []) = Inr ?bs"
    by (simp add: example_run descriptor_def document_of_def pdf_def)
  have b: "list_blobs (client_listing (iter example_listing)) ''bucket'' ''folder''
             = Inr (iter example_listing)"
    by (simp add: client_listing_def)
  note t = create_batches_excludes_skipped_blobs [OF a refl b, unfolded yielded_iter]
  have d: "document_of ''bucket'' (pdf ''d.pdf'' 100) \<in> set (all_documents ?bs)"
    by simp
  from a b bspec [OF t [THEN conjunct1] d] t [THEN conjunct2]
  show ?thesis by (intro conjI)
qed

subsection \<open>The batch size equal to the maximum\<close>

text \<open>
  Claim C10. With \<open>batch_size = BATCH_MAX_FILES\<close> the validation passes: the function
  goes on to ask for the storage client, and returns batches when the listing
  completes. The validation error with an untouched log is the outcome exactly when
  the batch size is strictly greater than the maximum, although the message of that
  error reads "must be less than".
\<close>

theorem create_batches_accepts_maximum:
  "(\<exists>evs. snd (create_batches c get_storage_client gcs_bucket_name gcs_prefix
                  (BATCH_MAX_FILES c) out) = out @ GetStorageClient # evs)
   \<and> (list_blobs client gcs_bucket_name gcs_prefix = Inr blob_list \<longrightarrow> raised blob_list = None \<longrightarrow>
        (\<exists>bs. fst (create_batches c (Inr client) gcs_bucket_name gcs_prefix
                     (BATCH_MAX_FILES c) out) = Inr bs))
   \<and> (create_batches c get_storage_client gcs_bucket_name gcs_prefix batch_size out
         = (Inl (ValueError (''Batch size must be less than '' @ str_int (BATCH_MAX_FILES c)
                             @ ''. You provided '' @ str_int batch_size @ ''.'')), out)
       \<longleftrightarrow> BATCH_MAX_FILES c < batch_size)"
proof (intro conjI impI)
  show "\<exists>evs. snd (create_batches c get_storage_client gcs_bucket_name gcs_prefix
                  (BATCH_MAX_FILES c) out) = out @ GetStorageClient # evs"
  proof (cases get_storage_client)
    case (Inl e)
    then show ?thesis by (simp add: create_batches_def)
  next
    case (Inr cl)
    show ?thesis
    proof (cases "list_blobs cl gcs_bucket_name gcs_prefix")
      case (Inl e)
      with Inr show ?thesis by (simp add: create_batches_def)
    next
      case it: (Inr it)
      from create_batches_snd [OF order_refl it, where out = out] Inr show ?thesis by simp
    qed
  qed
next
  assume "list_blobs client gcs_bucket_name gcs_prefix = Inr blob_list" "raised blob_list = None"
  then show "\<exists>bs. fst (create_batches c (Inr client) gcs_bucket_name gcs_prefix
                     (BATCH_MAX_FILES c) out) = Inr bs"
    using create_batches_fst [OF order_refl, where client = client and bkt = gcs_bucket_name
            and pfx = gcs_prefix and it = blob_list and c = c and out = out]
    by simp
next
  have "snd (create_batches c get_storage_client gcs_bucket_name gcs_prefix batch_size out) \<noteq> out"
    if le: "batch_size \<le> BATCH_MAX_FILES c"
  proof (cases get_storage_client)
    case (Inl e)
    with le show ?thesis by (simp add: create_batches_def)
  next
    case (Inr cl)
    show ?thesis
    proof (cases "list_blobs cl gcs_bucket_name gcs_prefix")
      case (Inl e)
      with Inr le show ?thesis by (simp add: create_batches_def)
    next
      case it: (Inr it)
      from create_batches_snd [OF le it, of out] Inr show ?thesis by simp
    qed
  qed
  then show "create_batches c get_storage_client gcs_bucket_name gcs_prefix batch_size out
         = (Inl (ValueError (''Batch size must be less than '' @ str_int (BATCH_MAX_FILES c)
                             @ ''. You provided '' @ str_int batch_size @ ''.'')), out)
       \<longleftrightarrow> BATCH_MAX_FILES c < batch_size"
    by (cases "BATCH_MAX_FILES c < batch_size") (auto simp: create_batches_def)
qed

theorem create_batches_accepts_maximum_witness:
  "list_blobs (client_listing (iter example_listing)) ''bucket'' ''folder''
     = Inr (iter example_listing)
   \<and> raised (iter example_listing) = None
   \<and> (\<exists>bs. fst (create_batches example_constants (Inr (client_listing (iter example_listing)))
                  ''bucket'' ''folder'' (BATCH_MAX_FILES example_constants) []) = Inr bs)
   \<and> BATCH_MAX_FILES example_constants = 50
   \<and> create_batches example_constants (Inr (client_listing (iter example_listing)))
         ''bucket'' ''folder'' 50 []
       \<noteq> (Inl (ValueError ''Batch size must be less than 50. You provided 50.''), [])"
proof -
  note t = create_batches_accepts_maximum
             [where c = example_constants
                and get_storage_client = "Inr (client_listing (iter example_listing))"
                and client = "client_listing (iter example_listing)"
                and blob_list = "iter example_listing"
                and gcs_bucket_name = "''bucket''" and gcs_prefix = "''folder''"
                and batch_size = 50 and out = "[]"]
  have b: "list_blobs (client_listing (iter example_listing)) ''bucket'' ''folder''
             = Inr (iter example_listing)"
    by (simp add: client_listing_def)
  have c: "raised (iter example_listing) = None" by simp
  have m: "BATCH_MAX_FILES example_constants = 50" by (simp add: example_constants_def)
  note returns = t [THEN conjunct2, THEN conjunct1, rule_format, OF b c]
  have msg: "''Batch size must be less than '' @ str_int (BATCH_MAX_FILES example_constants)
               @ ''. You provided '' @ str_int 50 @ ''.''
             = ''Batch size must be less than 50. You provided 50.''"
    by (simp add: m str_int_def str_nat.simps digit_char_def)
  from t [THEN conjunct2, THEN conjunct2] m
  have "create_batches example_constants (Inr (client_listing (iter example_listing)))
          ''bucket'' ''folder'' 50 []
        \<noteq> (Inl (ValueError ''Batch size must be less than 50. You provided 50.''), [])"
    unfolding msg by simp
  with b c returns m show ?thesis by (intro conjI)
qed

subsection \<open>The lookup of a processor type\<close>

lemma dict_literal_map_of: "dict_literal kvs = map_of (rev kvs)"
proof -
  have "fold (\<lambda>(k, v) d. d(k \<mapsto> v)) kvs m = m ++ map_of (rev kvs)" for m :: "'a \<rightharpoonup> 'b"
    by (induction kvs arbitrary: m) (auto simp: map_add_def fun_eq_iff split: option.splits)
  then show ?thesis by (simp add: dict_literal_def)
qed

lemma document_type_to_processor_type_map_of:
  "document_type_to_processor_type t = map_of (rev document_map_items) t"
  by (simp add: document_type_to_processor_type_def dict_get_def document_map_def
        dict_literal_map_of split: option.splits)

lemma unknown_type_no_key: "''unknown_type'' \<notin> set (map fst document_map_items)"
  by code_simp

lemma lookups:
  "document_type_to_processor_type ''w2'' = Some ''FORM_W2_PROCESSOR''"
  "document_type_to_processor_type ''unknown_type'' = None"
  "document_type_to_processor_type ''W2'' = None"
  "document_type_to_processor_type ''w'' = None"
  "document_type_to_processor_type ''w2_'' = None"
  by code_simp+

lemma document_map_items_distinct: "distinct (map fst document_map_items)"
  by (simp add: document_map_items_def)

text \<open>
  Claim C6. \<open>document_type_to_processor_type\<close> returns a processor type for a document
  type exactly when the two form an item of the table: the key is compared as a whole
  and character by character, so a key in another case, a prefix of a key and a key with
  something appended are all misses. In particular \<^verbatim>\<open>w2\<close> gives
  \<^verbatim>\<open>FORM_W2_PROCESSOR\<close> and \<^verbatim>\<open>unknown_type\<close> gives \<open>None\<close>.
\<close>

theorem document_type_to_processor_type_exact_match:
  "(document_type_to_processor_type document_type = Some processor_type
      \<longleftrightarrow> (document_type, processor_type) \<in> set document_map_items)
   \<and> document_type_to_processor_type ''w2'' = Some ''FORM_W2_PROCESSOR''
   \<and> document_type_to_processor_type ''unknown_type'' = None
   \<and> document_type_to_processor_type ''W2'' = None
   \<and> document_type_to_processor_type ''w'' = None
   \<and> document_type_to_processor_type ''w2_'' = None"
proof -
  have "distinct (map fst (rev document_map_items))"
    using document_map_items_distinct by (simp add: rev_map [symmetric])
  then have "map_of (rev document_map_items) document_type = Some processor_type
      \<longleftrightarrow> (document_type, processor_type) \<in> set (rev document_map_items)"
    by (rule map_of_eq_Some_iff)
  then have "document_type_to_processor_type document_type = Some processor_type
      \<longleftrightarrow> (document_type, processor_type) \<in> set document_map_items"
    by (simp add: document_type_to_processor_type_map_of)
  with lookups show ?thesis by (intro conjI)
qed

text \<open>
  Claim C7. For a document type that is the key of no item of the table, the function
  returns \<open>None\<close>; it has no other outcome, and in particular no error.
\<close>

theorem document_type_to_processor_type_miss:
  "document_type \<notin> set (map fst document_map_items) \<Longrightarrow>
   document_type_to_processor_type document_type = None"
  by (simp add: document_type_to_processor_type_map_of map_of_eq_None_iff)

theorem document_type_to_processor_type_miss_witness:
  "''unknown_type'' \<notin> set (map fst document_map_items)
   \<and> document_type_to_processor_type ''unknown_type'' = None"
  using document_type_to_processor_type_miss [OF unknown_type_no_key] unknown_type_no_key
  by (intro conjI)

subsection \<open>The number and the sizes of the pieces\<close>

lemma chunk_index_less:
  assumes "0 < n"
  shows "j < (N + n - 1) div n \<longleftrightarrow> j * n < (N::nat)"
proof -
  have "j < (N + n - 1) div n \<longleftrightarrow> Suc j \<le> (N + n - 1) div n" by auto
  also have "\<dots> \<longleftrightarrow> Suc j * n \<le> N + n - 1"
    using assms by (simp only: less_eq_div_iff_mult_less_eq)
  also have "\<dots> \<longleftrightarrow> j * n < N" using assms by auto
  finally show ?thesis .
qed

lemma chunk_count_Suc:
  assumes "0 < n" and "0 < (N::nat)"
  shows "(N + n - 1) div n = Suc ((N - 1) div n)"
proof -
  have "(N + n - 1) div n = ((N - 1) + n) div n" using assms by simp
  also have "\<dots> = (N - 1) div n + 1" using assms(1) by (intro div_add_self2) simp
  finally show ?thesis by simp
qed

lemma last_chunk_length:
  assumes "0 < n" and "0 < (N::nat)"
  shows "N - ((N - 1) div n) * n = (if N mod n = 0 then n else N mod n)"
proof -
  have "N - 1 = ((N - 1) div n) * n + (N - 1) mod n" by simp
  then have "N = ((N - 1) div n) * n + Suc ((N - 1) mod n)" using assms(2) by linarith
  then have eq: "N - ((N - 1) div n) * n = Suc ((N - 1) mod n)" by linarith
  have "Suc (N - 1) mod n = (if Suc ((N - 1) mod n) = n then 0 else Suc ((N - 1) mod n))"
    by (rule mod_Suc)
  then have m: "N mod n = (if Suc ((N - 1) mod n) = n then 0 else Suc ((N - 1) mod n))"
    using assms(2) by simp
  show ?thesis unfolding eq using m by (auto split: if_splits)
qed

lemma ceiling_nat_div:
  assumes "0 < n"
  shows "\<lceil>real N / real_of_int (int n)\<rceil> = int ((N + n - 1) div n)"
proof (rule ceiling_unique)
  let ?q = "(N + n - 1) div n"
  have n: "0 < real n" using assms by simp
  have up: "N \<le> ?q * n"
  proof (rule ccontr)
    assume "\<not> N \<le> ?q * n"
    then have "?q * n < N" by simp
    then have "?q < ?q" using chunk_index_less [OF assms, of ?q N] by simp
    then show False by simp
  qed
  then have "real N \<le> real (?q * n)" by (simp only: of_nat_le_iff)
  then show "real N / real_of_int (int n) \<le> of_int (int ?q)"
    using n by (simp add: field_simps)
  show "of_int (int ?q) - 1 < real N / real_of_int (int n)"
  proof (cases "?q")
    case 0
    have "0 \<le> real N / real_of_int (int n)" by simp
    then have "- 1 < real N / real_of_int (int n)" by linarith
    with 0 show ?thesis by simp
  next
    case (Suc p)
    then have "p < ?q" by simp
    then have "p * n < N" using chunk_index_less [OF assms, of p N] by simp
    then have "real (p * n) < real N" by (simp only: of_nat_less_iff)
    then show ?thesis using n Suc by (simp add: field_simps)
  qed
qed

lemma concat_take_chunks:
  "0 < n \<Longrightarrow> concat (take j (chunks n xs)) = take (j * n) xs"
proof (induction n xs arbitrary: j rule: chunks.induct)
  case (1 n xs)
  show ?case
  proof (cases "xs = []")
    case True
    then show ?thesis by simp
  next
    case False
    show ?thesis
    proof (cases j)
      case 0
      then show ?thesis by simp
    next
      case (Suc k)
      have "concat (take j (chunks n xs)) = take n xs @ concat (take k (chunks n (drop n xs)))"
        using 1(2) False Suc by (simp add: chunks_nonempty)
      also have "\<dots> = take n xs @ take (k * n) (drop n xs)"
        using 1 False by simp
      also have "\<dots> = take (n + k * n) xs"
        by (simp add: take_add)
      finally show ?thesis using Suc by simp
    qed
  qed
qed

lemma length_nth_chunks:
  assumes "0 < n" and "i < length (chunks n xs)"
  shows "length (chunks n xs ! i) = min n (length xs - i * n)"
  using assms by (simp add: nth_chunks min.commute)

lemma length_nth_chunks_bounds:
  assumes "0 < n" and "i < length (chunks n xs)"
  shows "1 \<le> length (chunks n xs ! i)" and "length (chunks n xs ! i) \<le> n"
    and "Suc i < length (chunks n xs) \<Longrightarrow> length (chunks n xs ! i) = n"
proof -
  from assms have "i < (length xs + n - 1) div n"
    by (simp only: length_chunks)
  then have "i * n < length xs"
    using assms(1) by (simp only: chunk_index_less)
  then show "1 \<le> length (chunks n xs ! i)"
    using assms by (simp add: length_nth_chunks)
  show "length (chunks n xs ! i) \<le> n"
    using assms by (simp add: length_nth_chunks)
  assume "Suc i < length (chunks n xs)"
  then have "Suc i < (length xs + n - 1) div n"
    using assms(1) by (simp only: length_chunks)
  then have "Suc i * n < length xs"
    using assms(1) by (simp only: chunk_index_less)
  then show "length (chunks n xs ! i) = n"
    using assms by (simp add: length_nth_chunks)
qed

lemma length_last_chunks:
  assumes "0 < n" and "xs \<noteq> []"
  shows "length (last (chunks n xs)) = (if length xs mod n = 0 then n else length xs mod n)"
proof -
  let ?N = "length xs"
  from assms have N: "0 < ?N" by simp
  have len: "length (chunks n xs) = Suc ((?N - 1) div n)"
    using assms(1) N by (simp only: length_chunks chunk_count_Suc)
  then have ne: "chunks n xs \<noteq> []" by auto
  have "last (chunks n xs) = chunks n xs ! ((?N - 1) div n)"
    using ne len by (simp add: last_conv_nth)
  then have "length (last (chunks n xs)) = min n (?N - ((?N - 1) div n) * n)"
    using assms(1) len by (simp add: length_nth_chunks)
  also have "\<dots> = min n (if ?N mod n = 0 then n else ?N mod n)"
    using last_chunk_length [OF assms(1) N] by simp
  also have "\<dots> = (if ?N mod n = 0 then n else ?N mod n)"
  proof -
    have "?N mod n < n" using assms(1) by simp
    then show ?thesis by (simp add: min_def)
  qed
  finally show ?thesis .
qed

subsection \<open>The number and the sizes of the batches\<close>

lemma batch_length_descriptor [simp]: "batch_length (descriptor batch) = length batch"
  by (simp add: batch_length_def descriptor_def)

lemma create_batches_chunks:
  assumes "1 \<le> batch_size" and "batch_size \<le> BATCH_MAX_FILES c"
    and "list_blobs client bkt pfx = Inr it" and "raised it = None"
  shows "fst (create_batches c (Inr client) bkt pfx batch_size out) =
           Inr (map descriptor (chunks (nat batch_size)
                  (map (document_of bkt) (filter (eligible c) (yielded it)))))"
proof -
  have n: "0 < nat batch_size" "int (nat batch_size) = batch_size"
    using assms(1) by simp_all
  from add_document_chunks [OF n(1), of "[]" "[]"] n(2)
  have "seal (foldl (add_document batch_size) ([], []) ds)
          = map descriptor (chunks (nat batch_size) ds)" for ds
    by simp
  with assms show ?thesis by (simp add: create_batches_fst)
qed

lemma eligible_pdf: "eligible example_constants (pdf (s @ ''.pdf'') 100)"
  by (simp add: eligible_def example_constants_def pdf_def endswith_def)

lemma numbered_listing_eligible:
  "filter (eligible example_constants) (numbered_listing k) = numbered_listing k"
proof -
  have "\<forall>b \<in> set (numbered_listing k). eligible example_constants b"
    using eligible_pdf [of "''doc'' @ str_nat i" for i]
    by (auto simp: numbered_listing_def)
  then show ?thesis by (simp only: filter_id_conv)
qed

lemma length_numbered_listing [simp]: "length (numbered_listing k) = k"
  by (simp add: numbered_listing_def)

lemma example_run_negative:
  "fst (create_batches example_constants (Inr (client_listing (iter example_listing)))
          ''bucket'' ''folder'' (- 1) [])
     = Inr [descriptor [document_of ''bucket'' (pdf ''a.pdf'' 100),
                        document_of ''bucket'' (pdf ''d.pdf'' 100)]]"
  by (simp add: create_batches_def client_listing_def example_constants_def example_listing_def
        pdf_def endswith_def descriptor_def document_of_def)

lemma example_run_zero:
  "fst (create_batches example_constants (Inr (client_listing (iter example_listing)))
          ''bucket'' ''folder'' 0 [])
     = Inr [descriptor [],
            descriptor [document_of ''bucket'' (pdf ''a.pdf'' 100),
                        document_of ''bucket'' (pdf ''d.pdf'' 100)]]"
  by (simp add: create_batches_def client_listing_def example_constants_def example_listing_def
        pdf_def endswith_def descriptor_def document_of_def)

text \<open>
  Claim C1, for a batch size of at least 1. When \<open>1 \<le> batch_size \<le> BATCH_MAX_FILES\<close>
  and the listing completes with \<open>N\<close> eligible blobs, \<open>create_batches\<close> returns
  \<open>\<lceil>N / batch_size\<rceil>\<close> batches; every batch but the last has \<open>batch_size\<close> documents;
  the last has \<open>N mod batch_size\<close> documents, or \<open>batch_size\<close> when that is 0; and there
  is no batch when \<open>N = 0\<close>.
\<close>

theorem create_batches_count_and_sizes:
  assumes "1 \<le> batch_size" and "batch_size \<le> BATCH_MAX_FILES c"
    and "list_blobs client gcs_bucket_name gcs_prefix = Inr blob_list"
    and "raised blob_list = None"
    and "length (filter (eligible c) (yielded blob_list)) = N"
  shows "\<exists>bs. fst (create_batches c (Inr client) gcs_bucket_name gcs_prefix batch_size out) = Inr bs
          \<and> int (length bs) = \<lceil>real N / real_of_int batch_size\<rceil>
          \<and> (\<forall>i. i + 1 < length bs \<longrightarrow> int (batch_length (bs ! i)) = batch_size)
          \<and> (bs \<noteq> [] \<longrightarrow>
                int (batch_length (last bs))
                  = (if int N mod batch_size = 0 then batch_size else int N mod batch_size))
          \<and> (N = 0 \<longrightarrow> bs = [])"
proof -
  define n where "n = nat batch_size"
  define ds where "ds = map (document_of gcs_bucket_name) (filter (eligible c) (yielded blob_list))"
  define bs where "bs = map descriptor (chunks n ds)"
  have n: "0 < n" "int n = batch_size" using assms(1) by (simp_all add: n_def)
  have N: "length ds = N" using assms(5) by (simp add: ds_def)
  have run: "fst (create_batches c (Inr client) gcs_bucket_name gcs_prefix batch_size out) = Inr bs"
    unfolding bs_def n_def ds_def by (rule create_batches_chunks [OF assms(1-4)])
  have len: "length bs = (N + n - 1) div n"
    using n(1) N by (simp add: bs_def length_chunks)
  have count: "int (length bs) = \<lceil>real N / real_of_int batch_size\<rceil>"
    using ceiling_nat_div [OF n(1), of N] len n(2) by simp
  have full: "\<forall>i. i + 1 < length bs \<longrightarrow> int (batch_length (bs ! i)) = batch_size"
  proof (intro allI impI)
    fix i assume i: "i + 1 < length bs"
    then have "Suc i < length (chunks n ds)" by (simp add: bs_def)
    from length_nth_chunks_bounds(3) [OF n(1) _ this] i
    have "length (chunks n ds ! i) = n" by (simp add: bs_def)
    with i n(2) show "int (batch_length (bs ! i)) = batch_size" by (simp add: bs_def)
  qed
  have final: "bs \<noteq> [] \<longrightarrow>
                int (batch_length (last bs))
                  = (if int N mod batch_size = 0 then batch_size else int N mod batch_size)"
  proof
    assume ne: "bs \<noteq> []"
    then have cne: "chunks n ds \<noteq> []" by (simp add: bs_def)
    then have dne: "ds \<noteq> []" by auto
    have "batch_length (last bs) = length (last (chunks n ds))"
      using cne by (simp add: bs_def last_map)
    also have "\<dots> = (if N mod n = 0 then n else N mod n)"
      using length_last_chunks [OF n(1) dne] N by simp
    finally have "int (batch_length (last bs)) = (if N mod n = 0 then int n else int (N mod n))"
      by simp
    moreover have "int (N mod n) = int N mod batch_size"
      using n(2) by (simp add: zmod_int)
    ultimately show "int (batch_length (last bs))
                  = (if int N mod batch_size = 0 then batch_size else int N mod batch_size)"
      using n(2) by (simp add: of_nat_eq_0_iff [symmetric] del: of_nat_eq_0_iff)
  qed
  have none: "N = 0 \<longrightarrow> bs = []"
    using N by (auto simp: bs_def)
  from run count full final none show ?thesis by (intro exI [of _ bs] conjI)
qed

theorem create_batches_count_and_sizes_witness:
  "(1::int) \<le> 50
   \<and> (50::int) \<le> BATCH_MAX_FILES example_constants
   \<and> list_blobs (client_listing (iter (numbered_listing 101))) ''bucket'' ''folder''
       = Inr (iter (numbered_listing 101))
   \<and> raised (iter (numbered_listing 101)) = None
   \<and> length (filter (eligible example_constants) (yielded (iter (numbered_listing 101)))) = 101
   \<and> (\<exists>bs. fst (create_batches example_constants
                  (Inr (client_listing (iter (numbered_listing 101))))
                  ''bucket'' ''folder'' 50 []) = Inr bs
          \<and> map batch_length bs = [50, 50, 1])"
proof -
  have a: "(1::int) \<le> 50" by simp
  have b: "(50::int) \<le> BATCH_MAX_FILES example_constants" by (simp add: example_constants_def)
  have c: "list_blobs (client_listing (iter (numbered_listing 101))) ''bucket'' ''folder''
             = Inr (iter (numbered_listing 101))"
    by (simp add: client_listing_def)
  have d: "raised (iter (numbered_listing 101)) = None" by simp
  have e: "length (filter (eligible example_constants) (yielded (iter (numbered_listing 101))))
             = 101"
    by (simp add: numbered_listing_eligible)
  from create_batches_count_and_sizes [OF a b c d e, of "[]"] obtain bs where
    run: "fst (create_batches example_constants
                 (Inr (client_listing (iter (numbered_listing 101))))
                 ''bucket'' ''folder'' 50 []) = Inr bs"
    and count: "int (length bs) = \<lceil>real 101 / real_of_int 50\<rceil>"
    and full: "\<forall>i. i + 1 < length bs \<longrightarrow> int (batch_length (bs ! i)) = 50"
    and final: "bs \<noteq> [] \<longrightarrow>
                  int (batch_length (last bs))
                    = (if int 101 mod 50 = 0 then 50 else int 101 mod 50)"
    by (elim exE conjE)
  from count have len: "length bs = 3" by simp
  then obtain b0 b1 b2 where bs: "bs = [b0, b1, b2]"
    by (auto simp: numeral_3_eq_3 length_Suc_conv)
  from full [rule_format, of 0] bs have "batch_length b0 = 50" by simp
  moreover from full [rule_format, of 1] bs have "batch_length b1 = 50" by simp
  moreover from final bs have "batch_length b2 = 1" by simp
  ultimately have "map batch_length bs = [50, 50, 1]" by (simp add: bs)
  with run have "\<exists>bs. fst (create_batches example_constants
                  (Inr (client_listing (iter (numbered_listing 101))))
                  ''bucket'' ''folder'' 50 []) = Inr bs
          \<and> map batch_length bs = [50, 50, 1]"
    by (intro exI [of _ bs] conjI)
  with a b c d e show ?thesis by (intro conjI)
qed

text \<open>
  The bound \<open>1 \<le> batch_size\<close> is needed. The only check of the function is against the
  maximum, so \<open>batch_size = - 1\<close> is accepted; the test \<^verbatim>\<open>len(batch) == batch_size\<close> then
  never holds, and the two eligible blobs of the example end in one batch of two
  documents, where \<open>\<lceil>2 / - 1\<rceil>\<close> is \<open>- 2\<close>.
\<close>

theorem create_batches_negative_batch_size_counterexample:
  "(- 1::int) \<le> BATCH_MAX_FILES example_constants
   \<and> length (filter (eligible example_constants) (yielded (iter example_listing))) = 2
   \<and> fst (create_batches example_constants (Inr (client_listing (iter example_listing)))
            ''bucket'' ''folder'' (- 1) [])
       = Inr [descriptor [document_of ''bucket'' (pdf ''a.pdf'' 100),
                          document_of ''bucket'' (pdf ''d.pdf'' 100)]]
   \<and> int (length [descriptor [document_of ''bucket'' (pdf ''a.pdf'' 100),
                               document_of ''bucket'' (pdf ''d.pdf'' 100)]])
       \<noteq> \<lceil>real 2 / real_of_int (- 1)\<rceil>
   \<and> int (batch_length (last [descriptor [document_of ''bucket'' (pdf ''a.pdf'' 100),
                                           document_of ''bucket'' (pdf ''d.pdf'' 100)]]))
       \<noteq> (if int 2 mod (- 1) = 0 then - 1 else int 2 mod (- 1))"
proof -
  let ?bs = "[descriptor [document_of ''bucket'' (pdf ''a.pdf'' 100),
                          document_of ''bucket'' (pdf ''d.pdf'' 100)]]"
  have a: "(- 1::int) \<le> BATCH_MAX_FILES example_constants"
    by (simp add: example_constants_def)
  have b: "length (filter (eligible example_constants) (yielded (iter example_listing))) = 2"
    by (simp add: example_eligible)
  have c: "int (length ?bs) \<noteq> \<lceil>real 2 / real_of_int (- 1)\<rceil>" by simp
  have d: "int (batch_length (last ?bs))
             \<noteq> (if int 2 mod (- 1) = 0 then - 1 else int 2 mod (- 1))"
    by simp
  from a b example_run_negative c d show ?thesis by (intro conjI)
qed

text \<open>
  Claim C2, for a batch size of at least 1. When \<open>1 \<le> batch_size \<le> BATCH_MAX_FILES\<close>,
  every batch that \<open>create_batches\<close> returns has at least one document and at most
  \<open>batch_size\<close>, and every batch but the last has exactly \<open>batch_size\<close>.
\<close>

theorem create_batches_batch_sizes:
  assumes "1 \<le> batch_size" and "batch_size \<le> BATCH_MAX_FILES c"
    and "fst (create_batches c get_storage_client gcs_bucket_name gcs_prefix batch_size out)
           = Inr bs"
  shows "\<forall>i < length bs.
           1 \<le> batch_length (bs ! i)
         \<and> int (batch_length (bs ! i)) \<le> batch_size
         \<and> (i + 1 < length bs \<longrightarrow> int (batch_length (bs ! i)) = batch_size)"
proof (intro allI impI)
  fix i assume i: "i < length bs"
  from create_batches_Inr_D [OF assms(3)] obtain client it where
    c: "get_storage_client = Inr client" "list_blobs client gcs_bucket_name gcs_prefix = Inr it"
       "raised it = None"
    by blast
  define n where "n = nat batch_size"
  define ds where "ds = map (document_of gcs_bucket_name) (filter (eligible c) (yielded it))"
  have n: "0 < n" "int n = batch_size" using assms(1) by (simp_all add: n_def)
  have bs: "bs = map descriptor (chunks n ds)"
    using create_batches_chunks [OF assms(1,2) c(2,3), of out] assms(3) c(1)
    by (simp add: n_def ds_def)
  from i have ic: "i < length (chunks n ds)" by (simp add: bs)
  have l: "batch_length (bs ! i) = length (chunks n ds ! i)" using ic by (simp add: bs)
  from length_nth_chunks_bounds(1,2) [OF n(1) ic] n(2)
  have a: "1 \<le> batch_length (bs ! i)" and b: "int (batch_length (bs ! i)) \<le> batch_size"
    unfolding l by simp_all
  have d: "i + 1 < length bs \<longrightarrow> int (batch_length (bs ! i)) = batch_size"
  proof
    assume "i + 1 < length bs"
    then have "Suc i < length (chunks n ds)" by (simp add: bs)
    from length_nth_chunks_bounds(3) [OF n(1) ic this] n(2)
    show "int (batch_length (bs ! i)) = batch_size" unfolding l by simp
  qed
  from a b d show "1 \<le> batch_length (bs ! i)
         \<and> int (batch_length (bs ! i)) \<le> batch_size
         \<and> (i + 1 < length bs \<longrightarrow> int (batch_length (bs ! i)) = batch_size)"
    by (intro conjI)
qed

theorem create_batches_batch_sizes_witness:
  "(1::int) \<le> 2
   \<and> (2::int) \<le> BATCH_MAX_FILES example_constants
   \<and> fst (create_batches example_constants (Inr (client_listing (iter example_listing)))
            ''bucket'' ''folder'' 2 [])
       = Inr [descriptor [document_of ''bucket'' (pdf ''a.pdf'' 100),
                          document_of ''bucket'' (pdf ''d.pdf'' 100)]]
   \<and> 1 \<le> batch_length ([descriptor [document_of ''bucket'' (pdf ''a.pdf'' 100),
                                       document_of ''bucket'' (pdf ''d.pdf'' 100)]] ! 0)
   \<and> int (batch_length ([descriptor [document_of ''bucket'' (pdf ''a.pdf'' 100),
                                      document_of ''bucket'' (pdf ''d.pdf'' 100)]] ! 0)) \<le> 2"
proof -
  let ?bs = "[descriptor [document_of ''bucket'' (pdf ''a.pdf'' 100),
                          document_of ''bucket'' (pdf ''d.pdf'' 100)]]"
  have a: "(1::int) \<le> 2" by simp
  have b: "(2::int) \<le> BATCH_MAX_FILES example_constants" by (simp add: example_constants_def)
  have c: "fst (create_batches example_constants (Inr (client_listing (iter example_listing)))
                  ''bucket'' ''folder'' 2 []) = Inr ?bs"
    by (simp add: example_run descriptor_def document_of_def pdf_def)
  have i: "0 < length ?bs" by simp
  note t = create_batches_batch_sizes [OF a b c, rule_format, OF i]
  from a b c t [THEN conjunct1] t [THEN conjunct2, THEN conjunct1]
  show ?thesis by (intro conjI)
qed

text \<open>
  Without the lower bound the statement fails: with \<open>batch_size = 0\<close> the empty batch
  passes the test \<^verbatim>\<open>len(batch) == batch_size\<close> at the first accepted blob and is emitted
  empty, and the batch after it grows past the batch size.
\<close>

theorem create_batches_zero_batch_size_counterexample:
  "(0::int) \<le> BATCH_MAX_FILES example_constants
   \<and> fst (create_batches example_constants (Inr (client_listing (iter example_listing)))
            ''bucket'' ''folder'' 0 [])
       = Inr [descriptor [],
              descriptor [document_of ''bucket'' (pdf ''a.pdf'' 100),
                          document_of ''bucket'' (pdf ''d.pdf'' 100)]]
   \<and> batch_length ([descriptor [],
                     descriptor [document_of ''bucket'' (pdf ''a.pdf'' 100),
                                 document_of ''bucket'' (pdf ''d.pdf'' 100)]] ! 0) = 0
   \<and> \<not> int (batch_length (last [descriptor [],
                     descriptor [document_of ''bucket'' (pdf ''a.pdf'' 100),
                                 document_of ''bucket'' (pdf ''d.pdf'' 100)]])) \<le> 0"
proof -
  let ?bs = "[descriptor [],
              descriptor [document_of ''bucket'' (pdf ''a.pdf'' 100),
                          document_of ''bucket'' (pdf ''d.pdf'' 100)]]"
  have a: "(0::int) \<le> BATCH_MAX_FILES example_constants"
    by (simp add: example_constants_def)
  have b: "batch_length (?bs ! 0) = 0" by simp
  have c: "\<not> int (batch_length (last ?bs)) \<le> 0" by simp
  from a example_run_zero b c show ?thesis by (intro conjI)
qed

subsection \<open>The order of the documents and the batch boundaries\<close>

lemma all_documents_map_descriptor [simp]: "all_documents (map descriptor xss) = concat xss"
  by (induction xss) (simp_all add: all_documents_def descriptor_def)

lemma seal_nonpositive:
  assumes "batch_size \<le> 0"
  shows "seal (foldl (add_document batch_size) ([], []) ds)
           = (if ds = [] then []
              else if batch_size = 0 then [descriptor [], descriptor ds]
              else [descriptor ds])"
proof (cases ds)
  case Nil
  then show ?thesis by simp
next
  case (Cons d ds')
  show ?thesis
  proof (cases "batch_size = 0")
    case True
    have "foldl (add_document batch_size) ([descriptor []], [d]) ds'
            = ([descriptor []], [d] @ ds')"
      using True by (intro add_document_never) simp
    with True Cons show ?thesis by simp
  next
    case False
    with assms have "batch_size < int (length ([] :: GcsDocument list))" by simp
    then have "foldl (add_document batch_size) ([], []) ds = ([], [] @ ds)"
      by (rule add_document_never)
    with False Cons show ?thesis by simp
  qed
qed

lemma example_documents:
  "map (document_of ''bucket'') (filter (eligible example_constants) example_listing)
     = [document_of ''bucket'' (pdf ''a.pdf'' 100), document_of ''bucket'' (pdf ''d.pdf'' 100)]"
  by (simp add: example_eligible)

text \<open>
  Claim C5. For every call with \<open>batch_size \<le> BATCH_MAX_FILES\<close> whose listing completes,
  the documents of the returned batches, concatenated in order, are the documents of the
  accepted blobs in the order of the listing. The boundaries are after every
  \<open>batch_size\<close>-th of them: the first \<open>j\<close> batches, when a batch follows them, hold
  exactly the first \<open>j * batch_size\<close> documents, and whenever \<open>k * batch_size\<close> documents
  are followed by another one, the \<open>k\<close>-th batch is followed by another batch.
\<close>

theorem create_batches_order_and_boundaries:
  assumes "batch_size \<le> BATCH_MAX_FILES c"
    and "list_blobs client gcs_bucket_name gcs_prefix = Inr blob_list"
    and "raised blob_list = None"
  shows "\<exists>bs. fst (create_batches c (Inr client) gcs_bucket_name gcs_prefix batch_size out) = Inr bs
          \<and> all_documents bs
               = map (document_of gcs_bucket_name) (filter (eligible c) (yielded blob_list))
          \<and> (\<forall>j. 1 \<le> j \<and> j < length bs \<longrightarrow>
                0 \<le> batch_size
              \<and> all_documents (take j bs)
                  = take (j * nat batch_size)
                      (map (document_of gcs_bucket_name) (filter (eligible c) (yielded blob_list))))
          \<and> (\<forall>k. 1 \<le> k \<and> 1 \<le> batch_size
                   \<and> k * nat batch_size < length (filter (eligible c) (yielded blob_list)) \<longrightarrow>
                k < length bs)"
proof -
  define ds where "ds = map (document_of gcs_bucket_name) (filter (eligible c) (yielded blob_list))"
  define bs where "bs = seal (foldl (add_document batch_size) ([], []) ds)"
  have run: "fst (create_batches c (Inr client) gcs_bucket_name gcs_prefix batch_size out) = Inr bs"
    using create_batches_fst [OF assms(1,2), of out] assms(3) by (simp add: bs_def ds_def)
  have docs: "all_documents bs = ds"
    by (simp add: bs_def all_documents_add_document)
  have cuts: "\<forall>j. 1 \<le> j \<and> j < length bs \<longrightarrow>
                0 \<le> batch_size \<and> all_documents (take j bs) = take (j * nat batch_size) ds"
  proof (cases "1 \<le> batch_size")
    case True
    then have n: "0 < nat batch_size" "int (nat batch_size) = batch_size" by simp_all
    from add_document_chunks [OF n(1), of "[]" "[]" ds] n(2)
    have "bs = map descriptor (chunks (nat batch_size) ds)" by (simp add: bs_def)
    then have "all_documents (take j bs) = take (j * nat batch_size) ds" for j
      using concat_take_chunks [OF n(1), of j ds] by (simp add: take_map)
    with True show ?thesis by simp
  next
    case False
    then have le: "batch_size \<le> 0" by simp
    show ?thesis
    proof (intro allI impI)
      fix j assume j: "1 \<le> j \<and> j < length bs"
      with seal_nonpositive [OF le, of ds]
      have "batch_size = 0" and "bs = [descriptor [], descriptor ds]" and "j = 1"
        unfolding bs_def by (auto split: if_splits)
      then show "0 \<le> batch_size \<and> all_documents (take j bs) = take (j * nat batch_size) ds"
        by simp
    qed
  qed
  have every: "\<forall>k. 1 \<le> k \<and> 1 \<le> batch_size
                   \<and> k * nat batch_size < length (filter (eligible c) (yielded blob_list)) \<longrightarrow>
                k < length bs"
  proof (intro allI impI)
    fix k
    assume k: "1 \<le> k \<and> 1 \<le> batch_size
                \<and> k * nat batch_size < length (filter (eligible c) (yielded blob_list))"
    then have n: "0 < nat batch_size" "int (nat batch_size) = batch_size" by simp_all
    from add_document_chunks [OF n(1), of "[]" "[]" ds] n(2)
    have "bs = map descriptor (chunks (nat batch_size) ds)" by (simp add: bs_def)
    then have "length bs = (length ds + nat batch_size - 1) div nat batch_size"
      using n(1) by (simp add: length_chunks)
    moreover from k have "k * nat batch_size < length ds" by (simp add: ds_def)
    ultimately show "k < length bs"
      using chunk_index_less [OF n(1), of k "length ds"] by simp
  qed
  from run docs cuts every show ?thesis
    unfolding ds_def by (intro exI [of _ bs] conjI)
qed

theorem create_batches_order_and_boundaries_witness:
  "(1::int) \<le> BATCH_MAX_FILES example_constants
   \<and> list_blobs (client_listing (iter example_listing)) ''bucket'' ''folder''
       = Inr (iter example_listing)
   \<and> raised (iter example_listing) = None
   \<and> (\<exists>bs. fst (create_batches example_constants (Inr (client_listing (iter example_listing)))
                  ''bucket'' ''folder'' 1 []) = Inr bs
          \<and> all_documents bs
               = [document_of ''bucket'' (pdf ''a.pdf'' 100),
                  document_of ''bucket'' (pdf ''d.pdf'' 100)]
          \<and> 1 < length bs
          \<and> all_documents (take 1 bs) = [document_of ''bucket'' (pdf ''a.pdf'' 100)])"
proof -
  have a: "(1::int) \<le> BATCH_MAX_FILES example_constants" by (simp add: example_constants_def)
  have b: "list_blobs (client_listing (iter example_listing)) ''bucket'' ''folder''
             = Inr (iter example_listing)"
    by (simp add: client_listing_def)
  have c: "raised (iter example_listing) = None" by simp
  from create_batches_order_and_boundaries
         [OF a b c, of "[]", unfolded yielded_iter example_documents]
  obtain bs where
    run: "fst (create_batches example_constants (Inr (client_listing (iter example_listing)))
                 ''bucket'' ''folder'' 1 []) = Inr bs"
    and docs: "all_documents bs
                 = [document_of ''bucket'' (pdf ''a.pdf'' 100),
                    document_of ''bucket'' (pdf ''d.pdf'' 100)]"
    and cuts: "\<forall>j. 1 \<le> j \<and> j < length bs \<longrightarrow>
                 0 \<le> (1::int)
               \<and> all_documents (take j bs)
                   = take (j * nat 1)
                       [document_of ''bucket'' (pdf ''a.pdf'' 100),
                        document_of ''bucket'' (pdf ''d.pdf'' 100)]"
    and every: "\<forall>k. 1 \<le> k \<and> (1::int) \<le> 1
                   \<and> k * nat 1 < length (filter (eligible example_constants) example_listing) \<longrightarrow>
                 k < length bs"
    by (elim exE conjE)
  from every [rule_format, of 1] have len: "1 < length bs"
    by (simp add: example_eligible)
  from cuts [rule_format, of 1] len
  have first: "all_documents (take 1 bs) = [document_of ''bucket'' (pdf ''a.pdf'' 100)]"
    by simp
  from run docs len first
  have "\<exists>bs. fst (create_batches example_constants (Inr (client_listing (iter example_listing)))
                  ''bucket'' ''folder'' 1 []) = Inr bs
          \<and> all_documents bs
               = [document_of ''bucket'' (pdf ''a.pdf'' 100),
                  document_of ''bucket'' (pdf ''d.pdf'' 100)]
          \<and> 1 < length bs
          \<and> all_documents (take 1 bs) = [document_of ''bucket'' (pdf ''a.pdf'' 100)]"
    by (intro exI [of _ bs] conjI)
  with a b c show ?thesis by (intro conjI)
qed

end
